theory Spec2Isabelle
  imports Main
begin

section \<open>Data model (frontend/src/types.ts)\<close>

text \<open>
  The \<open>Event\<close> interface. The field \<open>id\<close> is called \<open>event_id\<close> here (\<open>id\<close> is the
  identity function of HOL); \<open>payload\<close> has type \<open>any\<close> in the source and is kept as its
  serialised text.
\<close>

record Event =
  event_id :: string
  run_id :: string
  agent_id :: string
  timestamp :: string
  kind :: string
  payload :: string

text \<open>
  What \<open>JSON.parse\<close> returns has type \<open>any\<close>: a JSON value of any shape. The live
  stream annotates it \<open>: Event\<close> without looking at it, so its buffer holds JSON values.
  An object is the list of its properties; numbers are kept as integers.
\<close>

datatype json =
    JNull
  | JBool bool
  | JNumber int
  | JString string
  | JArray "json list"
  | JObject "(string \<times> json) list"

text \<open>
  Reading a property, \<open>v.name\<close>: reading from \<open>null\<close> throws (\<open>None\<close>); an object
  gives the property or \<open>undefined\<close> (\<open>Some None\<close>); of the names read here (\<open>id\<close>,
  \<open>kind\<close>) the other values have none.
\<close>

fun property :: "string \<Rightarrow> json \<Rightarrow> json option option" where
  "property name JNull = None"
| "property name (JObject fs) = Some (map_of fs name)"
| "property name v = Some None"

section \<open>The event list (frontend/src/components/EventFeed.tsx)\<close>

text \<open>
  Of the calls made for one row only this is kept: whether they return or throw.
  \<open>getEventIcon\<close> calls \<open>kind.includes\<close>, which strings and arrays have;
  \<open>formatKind\<close> calls \<open>kind.split\<close>, which only strings have. \<open>new Date\<close> and
  \<open>JSON.stringify\<close> return for every JSON value.
\<close>

definition getEventIcon_returns :: "json option \<Rightarrow> bool" where
  "getEventIcon_returns k \<longleftrightarrow>
     (case k of Some (JString s) \<Rightarrow> True | Some (JArray vs) \<Rightarrow> True | _ \<Rightarrow> False)"

definition formatKind_returns :: "json option \<Rightarrow> bool" where
  "formatKind_returns k \<longleftrightarrow> (case k of Some (JString s) \<Rightarrow> True | _ \<Rightarrow> False)"

text \<open>A row reads \<open>event.id\<close> for its key, then \<open>event.kind\<close> for the icon and the title.\<close>

definition row_renders :: "json \<Rightarrow> bool" where
  "row_renders event \<longleftrightarrow>
     (case property ''id'' event of
        None \<Rightarrow> False
      | Some i \<Rightarrow>
          (case property ''kind'' event of
             None \<Rightarrow> False
           | Some k \<Rightarrow> getEventIcon_returns k \<and> formatKind_returns k))"

definition EventFeed_renders :: "json list \<Rightarrow> bool" where
  "EventFeed_renders evs \<longleftrightarrow> list_all row_renders evs"

section \<open>The live stream (frontend/src/useEventStream.ts)\<close>

text \<open>
  The state of the hook: the two \<open>useState\<close> cells, what the handlers wrote to the
  console, and whether the effect's cleanup has called \<open>socket.close()\<close>.
  \<open>events\<close> is named \<open>liveEvents\<close>, as \<open>App\<close> renames it on destructuring.
\<close>

record Stream =
  liveEvents :: "json list"
  isConnected :: bool
  closeCalled :: bool
  streamConsole :: "string list"

definition useEventStream_init :: Stream where
  "useEventStream_init =
     \<lparr>liveEvents = [], isConnected = False, closeCalled = False, streamConsole = []\<rparr>"

text \<open>
  \<open>parse\<close> stands for \<open>JSON.parse(message.data)\<close>; it is \<open>None\<close> exactly when
  \<open>JSON.parse\<close> throws. Nothing checks that the value is an \<open>Event\<close>.
\<close>

definition onopen :: "Stream \<Rightarrow> Stream" where
  "onopen s = s\<lparr>isConnected := True,
                streamConsole := streamConsole s @ [''Connected to WebSocket'']\<rparr>"

definition onmessage :: "(string \<Rightarrow> json option) \<Rightarrow> string \<Rightarrow> Stream \<Rightarrow> Stream" where
  "onmessage parse msg s =
     (case parse msg of
        Some event \<Rightarrow> s\<lparr>liveEvents := take 100 (event # liveEvents s)\<rparr>
      | None \<Rightarrow> s\<lparr>streamConsole := streamConsole s @ [''Failed to parse event'']\<rparr>)"

definition onclose :: "Stream \<Rightarrow> Stream" where
  "onclose s = s\<lparr>isConnected := False,
                 streamConsole := streamConsole s @ [''Disconnected from WebSocket'']\<rparr>"

definition stream_cleanup :: "Stream \<Rightarrow> Stream" where
  "stream_cleanup s = s\<lparr>closeCalled := True\<rparr>"

datatype ws_event = WsOpen | WsMessage string | WsClose

fun ws_handle :: "(string \<Rightarrow> json option) \<Rightarrow> ws_event \<Rightarrow> Stream \<Rightarrow> Stream" where
  "ws_handle parse WsOpen s = onopen s"
| "ws_handle parse (WsMessage msg) s = onmessage parse msg s"
| "ws_handle parse WsClose s = onclose s"

fun ws_run :: "(string \<Rightarrow> json option) \<Rightarrow> ws_event list \<Rightarrow> Stream \<Rightarrow> Stream" where
  "ws_run parse [] s = s"
| "ws_run parse (e # es) s = ws_run parse es (ws_handle parse e s)"

text \<open>What arrived, oldest first: the values of the messages that parsed.\<close>

fun arrived :: "(string \<Rightarrow> json option) \<Rightarrow> ws_event list \<Rightarrow> json list" where
  "arrived parse [] = []"
| "arrived parse (WsMessage msg # es) =
     (case parse msg of Some event \<Rightarrow> event # arrived parse es | None \<Rightarrow> arrived parse es)"
| "arrived parse (_ # es) = arrived parse es"

text \<open>
  Events for concrete runs, as records and as JSON, and a stand-in for \<open>JSON.parse\<close> on the
  messages used below: the text \<open>{\<close> is not JSON, the text \<open>{}\<close> is the empty object, and
  any other text is short for the JSON of an event of run A with that kind.
\<close>

definition demo_event :: "string \<Rightarrow> string \<Rightarrow> Event" where
  "demo_event r k = \<lparr>event_id = k, run_id = r, agent_id = ''a1'', timestamp = ''t'',
                      kind = k, payload = ''null''\<rparr>"

definition demo_json :: "string \<Rightarrow> string \<Rightarrow> json" where
  "demo_json r k =
     JObject [(''id'', JString k), (''run_id'', JString r), (''agent_id'', JString ''a1''),
              (''timestamp'', JString ''t''), (''kind'', JString k), (''payload'', JNull)]"

definition demo_parse :: "string \<Rightarrow> json option" where
  "demo_parse msg =
     (if msg = ''{'' then None
      else if msg = ''{}'' then Some (JObject [])
      else Some (demo_json ''A'' msg))"

section \<open>Requests to the backend\<close>

text \<open>
  The three requests of \<open>RunDetail\<close>: \<open>GET /api/runs/{id}\<close>, \<open>POST /api/runs/{id}/cancel\<close>
  and \<open>POST /api/runs/{id}/input\<close> with the body \<open>{input}\<close>.
\<close>

datatype request = GetRun string | PostCancel string | PostInput string string

text \<open>
  What an awaited \<open>fetch\<close> may come back with: the promise rejects (the text is what
  \<open>console.error\<close> then prints), it resolves with \<open>res.ok\<close> false, it resolves with
  \<open>res.ok\<close> true and \<open>res.json()\<close> rejects, or the body is read: \<open>data.events\<close>
  (\<open>None\<close> when it is absent or null) and \<open>data.status\<close>. The body of a run is taken
  in its declared shape, a list of events and a string, as the state cells are typed; a
  body without a status, which would store \<open>undefined\<close>, is left out.
\<close>

datatype response =
    Rejected string
  | Status_not_ok
  | Body_unreadable string
  | Snapshot "Event list option" string

section \<open>The run view (frontend/src/components/RunDetail.tsx)\<close>

text \<open>The five \<open>useState\<close> cells of the component, \<open>null\<close> being \<open>None\<close>.\<close>

record RunDetail =
  events :: "Event list"
  status :: string
  inputPrompt :: "string option"
  inputValue :: string
  loading :: bool

definition RunDetail_init :: RunDetail where
  "RunDetail_init =
     \<lparr>events = [], status = ''unknown'', inputPrompt = None, inputValue = [], loading = False\<rparr>"

text \<open>\<open>setEvents(data.events || []); setStatus(data.status)\<close>.\<close>

definition setSnapshot :: "Event list option \<Rightarrow> string \<Rightarrow> RunDetail \<Rightarrow> RunDetail" where
  "setSnapshot evs st d =
     d\<lparr>events := (case evs of Some es \<Rightarrow> es | None \<Rightarrow> []), status := st\<rparr>"

text \<open>The two conditional blocks of the JSX: the Stop button and the input prompt.\<close>

definition stopShown :: "RunDetail \<Rightarrow> bool" where
  "stopShown d \<longleftrightarrow>
     status d \<noteq> ''RunCompleted'' \<and> status d \<noteq> ''RunFailed'' \<and> status d \<noteq> ''Cancelled''"

definition promptShown :: "RunDetail \<Rightarrow> bool" where
  "promptShown d \<longleftrightarrow> (case inputPrompt d of None \<Rightarrow> False | Some p \<Rightarrow> p \<noteq> [])"

section \<open>The application (frontend/src/App.tsx)\<close>

datatype ViewMode = Live | History

text \<open>
  The state of \<open>App\<close> and of what it renders. \<open>detail\<close> is the state of the \<open>RunDetail\<close>
  element, \<open>None\<close> while it is not rendered. \<open>mounts\<close> counts the \<open>RunDetail\<close> instances
  created so far, so the mounted one is number \<open>mounts\<close>; the state setters that a
  pending request closes over belong to the instance that sent it. \<open>interval\<close> is the
  run id the \<open>setInterval\<close> callback closes over, \<open>None\<close> when no timer is set.
  \<open>inflight\<close> are the requests not yet answered, each with the instance that sent it;
  \<open>sent\<close> is every request made so far. \<open>crashed\<close> holds once a render has thrown:
  no error boundary is declared, so the whole tree is then unmounted and stays so.
\<close>

record App =
  viewMode :: ViewMode
  activeRunId :: "string option"
  detail :: "RunDetail option"
  mounts :: nat
  interval :: "string option"
  inflight :: "(nat \<times> request) list"
  sent :: "request list"
  console :: "string list"
  stream :: Stream
  crashed :: bool

definition App_init :: App where
  "App_init =
     \<lparr>viewMode = Live, activeRunId = None, detail = None, mounts = 0, interval = None,
      inflight = [], sent = [], console = [], stream = useEventStream_init,
      crashed = False\<rparr>"

definition send :: "nat \<Rightarrow> request \<Rightarrow> App \<Rightarrow> App" where
  "send n req a = a\<lparr>inflight := inflight a @ [(n, req)], sent := sent a @ [req]\<rparr>"

text \<open>
  A state setter of instance \<open>n\<close>: it acts on the mounted instance when that is \<open>n\<close>, and
  does nothing once \<open>n\<close> is gone.
\<close>

definition setState :: "nat \<Rightarrow> (RunDetail \<Rightarrow> RunDetail) \<Rightarrow> App \<Rightarrow> App" where
  "setState n f a = (if mounts a = n then a\<lparr>detail := map_option f (detail a)\<rparr> else a)"

text \<open>
  \<open>fetchDetails\<close>, up to its \<open>await\<close> and from there on. No branch looks at the run id
  the request was made for.
\<close>

definition fetchDetails :: "nat \<Rightarrow> string \<Rightarrow> App \<Rightarrow> App" where
  "fetchDetails n runId a = send n (GetRun runId) a"

fun fetchDetails_done :: "nat \<Rightarrow> response \<Rightarrow> App \<Rightarrow> App" where
  "fetchDetails_done n (Rejected e) a = a\<lparr>console := console a @ [e]\<rparr>"
| "fetchDetails_done n Status_not_ok a = a"
| "fetchDetails_done n (Body_unreadable e) a = a\<lparr>console := console a @ [e]\<rparr>"
| "fetchDetails_done n (Snapshot evs st) a = setState n (setSnapshot evs st) a"

text \<open>\<open>cancelRun\<close>; \<open>confirmed\<close> is the operator's answer to \<open>confirm('Stop this run?')\<close>.\<close>

definition cancelRun :: "bool \<Rightarrow> nat \<Rightarrow> string \<Rightarrow> App \<Rightarrow> App" where
  "cancelRun confirmed n runId a = (if \<not> confirmed then a else send n (PostCancel runId) a)"

fun cancelRun_done :: "nat \<Rightarrow> string \<Rightarrow> response \<Rightarrow> App \<Rightarrow> App" where
  "cancelRun_done n runId (Rejected e) a = a\<lparr>console := console a @ [e]\<rparr>"
| "cancelRun_done n runId _ a = fetchDetails n runId a"

text \<open>
  \<open>submitInput\<close>. The response of the POST is never inspected: whatever resolves the
  \<open>await\<close> takes the success path.
\<close>

definition submitInput :: "nat \<Rightarrow> string \<Rightarrow> App \<Rightarrow> App" where
  "submitInput n runId a =
     (case detail a of
        None \<Rightarrow> a
      | Some d \<Rightarrow>
          if inputValue d = [] then a
          else send n (PostInput runId (inputValue d))
                 (setState n (\<lambda>d. d\<lparr>loading := True\<rparr>) a))"

fun submitInput_done :: "nat \<Rightarrow> string \<Rightarrow> response \<Rightarrow> App \<Rightarrow> App" where
  "submitInput_done n runId (Rejected e) a =
     setState n (\<lambda>d. d\<lparr>loading := False\<rparr>) (a\<lparr>console := console a @ [e]\<rparr>)"
| "submitInput_done n runId _ a =
     setState n (\<lambda>d. d\<lparr>loading := False\<rparr>)
       (fetchDetails n runId
         (setState n (\<lambda>d. d\<lparr>inputValue := [], inputPrompt := None\<rparr>) a))"

fun complete :: "nat \<Rightarrow> request \<Rightarrow> response \<Rightarrow> App \<Rightarrow> App" where
  "complete n (GetRun runId) r a = fetchDetails_done n r a"
| "complete n (PostCancel runId) r a = cancelRun_done n runId r a"
| "complete n (PostInput runId v) r a = submitInput_done n runId r a"

text \<open>
  The effect of \<open>RunDetail\<close>, with dependency \<open>[runId]\<close>: on mount and after every change
  of \<open>runId\<close> it fetches and sets the timer; its cleanup, run before the next effect and
  on unmount, clears the timer.
\<close>

definition effect :: "string \<Rightarrow> App \<Rightarrow> App" where
  "effect runId a = (fetchDetails (mounts a) runId a)\<lparr>interval := Some runId\<rparr>"

definition cleanup :: "App \<Rightarrow> App" where
  "cleanup a = a\<lparr>interval := None\<rparr>"

text \<open>
  Rendering \<open>App\<close> after its state changed. \<open>RunDetail\<close> is rendered in history mode when
  \<open>activeRunId\<close> is truthy. It is given no \<open>key\<close>: while it stays rendered it is one
  instance whose state is kept and whose prop \<open>runId\<close> changes; \<open>old\<close> is the prop of the
  previous render.
\<close>

definition render :: "string option \<Rightarrow> App \<Rightarrow> App" where
  "render old a =
     (case (if viewMode a = History then activeRunId a else None) of
        None \<Rightarrow> (case detail a of None \<Rightarrow> a | Some d \<Rightarrow> (cleanup a)\<lparr>detail := None\<rparr>)
      | Some runId \<Rightarrow>
          if runId = [] then (case detail a of None \<Rightarrow> a | Some d \<Rightarrow> (cleanup a)\<lparr>detail := None\<rparr>)
          else (case detail a of
                  None \<Rightarrow> effect runId (a\<lparr>detail := Some RunDetail_init, mounts := Suc (mounts a)\<rparr>)
                | Some d \<Rightarrow> if old = Some runId then a else effect runId (cleanup a)))"

definition handleSelectRun :: "string \<Rightarrow> App \<Rightarrow> App" where
  "handleSelectRun runId a =
     render (activeRunId a) (a\<lparr>activeRunId := Some runId, viewMode := History\<rparr>)"

definition showLive :: "App \<Rightarrow> App" where
  "showLive a = render (activeRunId a) (a\<lparr>viewMode := Live, activeRunId := None\<rparr>)"

text \<open>
  Rendering \<open>App\<close> in live mode renders the \<open>EventFeed\<close> of the live buffer. When that
  throws, the tree is unmounted and the cleanups of the effects run: the timer of
  \<open>RunDetail\<close> is cleared and \<open>socket.close()\<close> is called.
\<close>

definition crash :: "App \<Rightarrow> App" where
  "crash a =
     (cleanup a)\<lparr>crashed := True, detail := None, stream := stream_cleanup (stream a)\<rparr>"

definition renderFeed :: "App \<Rightarrow> App" where
  "renderFeed a =
     (if viewMode a = Live \<and> \<not> EventFeed_renders (liveEvents (stream a)) then crash a else a)"

text \<open>
  What can happen to the page: the operator's clicks and keys, the timer, a socket event,
  and the answer to the \<open>i\<close>-th pending request. A control that is not rendered cannot be
  used; the Send button is disabled while \<open>loading\<close>, the Enter key is not. Once the
  tree is unmounted there is nothing to click and the socket is closing: no message is
  delivered any more, and the close event reaches \<open>onclose\<close>, which writes its line.
  The answers to pending requests are still handled, by state setters that no longer act.
  A message that does not parse sets no state, so nothing is rendered again.
\<close>

datatype action =
    SelectRun string
  | ClickLive
  | Tick
  | ClickStop bool
  | TypeInput string
  | ClickSend
  | PressEnter
  | Respond nat response
  | Socket ws_event

fun step :: "(string \<Rightarrow> json option) \<Rightarrow> action \<Rightarrow> App \<Rightarrow> App" where
  "step parse (SelectRun runId) a = (if crashed a then a else handleSelectRun runId a)"
| "step parse ClickLive a = (if crashed a then a else renderFeed (showLive a))"
| "step parse Tick a =
     (case interval a of None \<Rightarrow> a | Some runId \<Rightarrow> fetchDetails (mounts a) runId a)"
| "step parse (ClickStop confirmed) a =
     (case (detail a, activeRunId a) of
        (Some d, Some runId) \<Rightarrow>
          if stopShown d then cancelRun confirmed (mounts a) runId a else a
      | _ \<Rightarrow> a)"
| "step parse (TypeInput v) a =
     (case detail a of
        Some d \<Rightarrow> if promptShown d then setState (mounts a) (\<lambda>d. d\<lparr>inputValue := v\<rparr>) a else a
      | None \<Rightarrow> a)"
| "step parse ClickSend a =
     (case (detail a, activeRunId a) of
        (Some d, Some runId) \<Rightarrow>
          if promptShown d \<and> \<not> loading d then submitInput (mounts a) runId a else a
      | _ \<Rightarrow> a)"
| "step parse PressEnter a =
     (case (detail a, activeRunId a) of
        (Some d, Some runId) \<Rightarrow> if promptShown d then submitInput (mounts a) runId a else a
      | _ \<Rightarrow> a)"
| "step parse (Respond i r) a =
     (if i < length (inflight a)
      then complete (fst (inflight a ! i)) (snd (inflight a ! i)) r
             (a\<lparr>inflight := take i (inflight a) @ drop (Suc i) (inflight a)\<rparr>)
      else a)"
| "step parse (Socket e) a =
     (if crashed a
        then (case e of
                WsClose \<Rightarrow>
                  a\<lparr>stream := (stream a)\<lparr>streamConsole :=
                       streamConsole (stream a) @ [''Disconnected from WebSocket'']\<rparr>\<rparr>
              | _ \<Rightarrow> a)
      else if (case e of WsMessage msg \<Rightarrow> parse msg = None | _ \<Rightarrow> False)
        then a\<lparr>stream := ws_handle parse e (stream a)\<rparr>
      else renderFeed (a\<lparr>stream := ws_handle parse e (stream a)\<rparr>))"

fun run :: "(string \<Rightarrow> json option) \<Rightarrow> action list \<Rightarrow> App \<Rightarrow> App" where
  "run parse [] a = a"
| "run parse (x # xs) a = run parse xs (step parse x a)"

fun isPostCancel :: "request \<Rightarrow> bool" where
  "isPostCancel (PostCancel runId) = True"
| "isPostCancel _ = False"

fun isPostInput :: "request \<Rightarrow> bool" where
  "isPostInput (PostInput runId v) = True"
| "isPostInput _ = False"

fun isSnapshot :: "action \<Rightarrow> bool" where
  "isSnapshot (Respond i (Snapshot evs st)) = True"
| "isSnapshot _ = False"


text \<open>The values of the type \<open>RunState\<close> of types.ts, which no component uses.\<close>

datatype RunState = Active | Paused | AwaitingInput | Cancelled | Completed | Failed

fun RunState_literal :: "RunState \<Rightarrow> string" where
  "RunState_literal Active = ''active''"
| "RunState_literal Paused = ''paused''"
| "RunState_literal AwaitingInput = ''awaiting_input''"
| "RunState_literal Cancelled = ''cancelled''"
| "RunState_literal Completed = ''completed''"
| "RunState_literal Failed = ''failed''"

section \<open>The state resolver\<close>

text \<open>
  Modelled from the spec: the \<open>RunStateResolver\<close> (\<open>resolve\<close>) of section 4.3. No file
  under src/ derives a state from events: types.ts declares \<open>RunState\<close> and \<open>RunDetail\<close>
  displays the \<open>status\<close> string of the backend as it comes. The definitions below follow
  the transition table row by row; \<open>None\<close> is the state \<open>unknown\<close> before any event, and a
  kind with no row for the current state leaves the state as it is.
\<close>

definition terminal :: "RunState option \<Rightarrow> bool" where
  "terminal s \<longleftrightarrow> s = Some Cancelled \<or> s = Some Completed \<or> s = Some Failed"

definition terminal_kind :: "string \<Rightarrow> bool" where
  "terminal_kind k \<longleftrightarrow> k = ''run_completed'' \<or> k = ''run_failed'' \<or> k = ''run_cancelled''"

definition transition :: "RunState option \<Rightarrow> string \<Rightarrow> RunState option" where
  "transition s k =
     (if terminal s then s
      else if k = ''run_started'' then Some Active
      else if k = ''run_paused'' then Some Paused
      else if k = ''request_input'' then Some AwaitingInput
      else if k = ''input_received'' \<or> k = ''resume''
        then (if s = Some Paused \<or> s = Some AwaitingInput then Some Active else s)
      else if k = ''run_completed'' then Some Completed
      else if k = ''run_failed'' then Some Failed
      else if k = ''run_cancelled'' then Some Cancelled
      else s)"

definition resolve :: "Event list \<Rightarrow> RunState option" where
  "resolve evs = foldl transition None (map kind evs)"

section \<open>Concrete scenarios\<close>


text \<open>The operator opens run A, sees its status, and then opens run B.\<close>

definition switch_after_fetch :: "action list" where
  "switch_after_fetch =
     [SelectRun ''A'',
      Respond 0 (Snapshot (Some [demo_event ''A'' ''run_completed'']) ''RunCompleted''),
      SelectRun ''B'']"

text \<open>
  The operator opens run A; the backend reports it with the status that \<open>RunList\<close> tests
  for, \<open>run_completed\<close>; the operator clicks Stop and confirms.
\<close>

definition stop_completed_run :: "action list" where
  "stop_completed_run =
     [SelectRun ''A'',
      Respond 0 (Snapshot (Some [demo_event ''A'' ''run_completed'']) ''run_completed''),
      ClickStop True]"

section \<open>Properties of the live buffer\<close>

lemma take_append_take: "take n (xs @ take n ys) = take n (xs @ ys)"
  by (simp add: min_def)

lemma arrived_Cons: "arrived parse (e # es) = arrived parse [e] @ arrived parse es"
  by (cases e) (simp_all split: option.split)

lemma liveEvents_ws_run_gen:
  "length (liveEvents s) \<le> 100 \<Longrightarrow>
   liveEvents (ws_run parse es s) = take 100 (rev (arrived parse es) @ liveEvents s)"
proof (induction es arbitrary: s)
  case Nil
  then show ?case by simp
next
  case (Cons e es)
  have len: "length (liveEvents (ws_handle parse e s)) \<le> 100"
    using Cons.prems
    by (cases e) (simp_all add: onopen_def onclose_def onmessage_def split: option.split)
  have "liveEvents (ws_run parse (e # es) s)
        = take 100 (rev (arrived parse es) @ liveEvents (ws_handle parse e s))"
    using Cons.IH [OF len] by simp
  also have "\<dots> = take 100 (rev (arrived parse es) @ rev (arrived parse [e]) @ liveEvents s)"
  proof (cases e)
    case (WsMessage msg)
    show ?thesis
    proof (cases "parse msg")
      case None
      with WsMessage show ?thesis by (simp add: onmessage_def)
    next
      case (Some event)
      have "liveEvents (ws_handle parse e s) = take 100 (event # liveEvents s)"
        using WsMessage Some by (simp add: onmessage_def)
      moreover have "rev (arrived parse [e]) @ liveEvents s = event # liveEvents s"
        using WsMessage Some by simp
      ultimately show ?thesis
        by (simp only: take_append_take)
    qed
  qed (simp_all add: onopen_def onclose_def)
  finally show ?case
    by (simp add: arrived_Cons [of parse e es])
qed

text \<open>
  C3. Whatever the socket delivers, the buffer holds at most 100 events, and they are the
  most recently arrived ones, newest first: the first 100 of the arrivals reversed.
\<close>

theorem live_buffer_holds_newest_100:
  "length (liveEvents (ws_run parse es useEventStream_init)) \<le> 100 \<and>
   liveEvents (ws_run parse es useEventStream_init) = take 100 (rev (arrived parse es))"
proof -
  have "liveEvents (ws_run parse es useEventStream_init)
        = take 100 (rev (arrived parse es) @ liveEvents useEventStream_init)"
    by (rule liveEvents_ws_run_gen) (simp add: useEventStream_init_def)
  then show ?thesis
    by (simp add: useEventStream_init_def)
qed

text \<open>
  A message on which \<open>JSON.parse\<close> throws changes nothing but the console, which gets
  one more line: the buffer, the connectivity flag and the socket are as before, and
  nothing is rendered again.
\<close>

lemma unparsable_message_dropped:
  "parse msg = None \<Longrightarrow>
   onmessage parse msg s = s\<lparr>streamConsole := streamConsole s @ [''Failed to parse event'']\<rparr>"
  "parse msg = None \<Longrightarrow> \<not> crashed a \<Longrightarrow>
   step parse (Socket (WsMessage msg)) a
     = a\<lparr>stream := (stream a)\<lparr>streamConsole :=
                         streamConsole (stream a) @ [''Failed to parse event'']\<rparr>\<rparr>"
  by (simp_all add: onmessage_def)

section \<open>Evaluating concrete runs\<close>

lemmas app_defs = App_init_def RunDetail_init_def handleSelectRun_def showLive_def render_def
  effect_def cleanup_def fetchDetails_def send_def setState_def setSnapshot_def cancelRun_def
  submitInput_def stopShown_def promptShown_def

lemmas feed_defs = renderFeed_def crash_def cleanup_def EventFeed_renders_def row_renders_def
  getEventIcon_returns_def formatKind_returns_def stream_cleanup_def onopen_def onmessage_def
  onclose_def useEventStream_init_def demo_parse_def demo_json_def App_init_def

text \<open>
  C8. The live feed is on display and the socket delivers the message \<open>{}\<close>. It parses,
  so it is not dropped and no warning is written: the value goes into the buffer. It has no
  \<open>kind\<close>, the row of the feed throws on \<open>kind.includes\<close>, the page is unmounted and
  \<open>socket.close()\<close> is called. In history mode the value waits in the buffer until the live
  feed is opened.
\<close>

theorem non_event_message_kept_and_feed_fails:
  "demo_parse ''{}'' = Some (JObject []) \<and>
   \<not> row_renders (JObject []) \<and>
   liveEvents (onmessage demo_parse ''{}'' useEventStream_init) = [JObject []] \<and>
   streamConsole (onmessage demo_parse ''{}'' useEventStream_init) = [] \<and>
   liveEvents (stream (run demo_parse [Socket WsOpen, Socket (WsMessage ''{}'')] App_init))
     = [JObject []] \<and>
   streamConsole (stream (run demo_parse [Socket WsOpen, Socket (WsMessage ''{}'')] App_init))
     = [''Connected to WebSocket''] \<and>
   closeCalled (stream (run demo_parse [Socket WsOpen, Socket (WsMessage ''{}'')] App_init)) \<and>
   crashed (run demo_parse [Socket WsOpen, Socket (WsMessage ''{}'')] App_init) \<and>
   \<not> crashed (run demo_parse [SelectRun ''A'', Socket (WsMessage ''{}'')] App_init) \<and>
   crashed (run demo_parse [SelectRun ''A'', Socket (WsMessage ''{}''), ClickLive] App_init) \<and>
   \<not> crashed (run demo_parse [Socket WsOpen, Socket (WsMessage ''run_started'')] App_init)"
  by (simp add: feed_defs app_defs)

section \<open>Properties of the state resolver\<close>

lemma transition_terminal: "terminal s \<Longrightarrow> transition s k = s"
  by (simp add: transition_def)

lemma foldl_transition_terminal: "terminal s \<Longrightarrow> foldl transition s ks = s"
  by (induction ks) (simp_all add: transition_terminal)

lemma transition_terminal_kind: "terminal_kind k \<Longrightarrow> terminal (transition s k)"
  by (auto simp: transition_def terminal_kind_def terminal_def)

lemma terminal_after_terminal_kind:
  "\<exists>k\<in>set ks. terminal_kind k \<Longrightarrow> terminal (foldl transition s ks)"
proof (induction ks arbitrary: s)
  case Nil
  then show ?case by simp
next
  case (Cons k ks)
  show ?case
  proof (cases "terminal_kind k")
    case True
    then have "terminal (transition s k)"
      by (rule transition_terminal_kind)
    then show ?thesis
      by (simp add: foldl_transition_terminal)
  next
    case False
    with Cons.prems have "\<exists>k\<in>set ks. terminal_kind k"
      by simp
    then show ?thesis
      using Cons.IH by simp
  qed
qed

text \<open>
  C1. Once an event of kind \<open>run_completed\<close>, \<open>run_failed\<close> or \<open>run_cancelled\<close> is in the
  sequence, events appended to it do not change what \<open>resolve\<close> returns.
\<close>

theorem resolve_idempotent_past_terminal:
  "\<exists>e\<in>set evs. terminal_kind (kind e) \<Longrightarrow> resolve (evs @ later) = resolve evs"
proof -
  assume "\<exists>e\<in>set evs. terminal_kind (kind e)"
  then have "\<exists>k\<in>set (map kind evs). terminal_kind k"
    by simp
  then have "terminal (foldl transition None (map kind evs))"
    by (rule terminal_after_terminal_kind)
  then show ?thesis
    by (simp add: resolve_def foldl_transition_terminal)
qed

theorem resolve_idempotent_past_terminal_witness:
  "resolve ([demo_event ''A'' ''run_started'', demo_event ''A'' ''run_completed'']
            @ [demo_event ''A'' ''action_taken''])
     = resolve [demo_event ''A'' ''run_started'', demo_event ''A'' ''run_completed''] \<and>
   resolve [demo_event ''A'' ''run_started'', demo_event ''A'' ''run_completed'',
            demo_event ''A'' ''action_taken''] = Some Completed \<and>
   resolve [demo_event ''A'' ''run_started'', demo_event ''A'' ''action_taken'',
            demo_event ''A'' ''request_input''] = Some AwaitingInput \<and>
   resolve [] = None"
proof -
  have h: "\<exists>e\<in>set [demo_event ''A'' ''run_started'', demo_event ''A'' ''run_completed''].
             terminal_kind (kind e)"
    by (simp add: demo_event_def terminal_kind_def)
  show ?thesis
    using resolve_idempotent_past_terminal [OF h, of "[demo_event ''A'' ''action_taken'']"]
    by (simp add: resolve_def transition_def terminal_def demo_event_def)
qed

section \<open>What each step sends\<close>

lemma sent_setState [simp]: "sent (setState n f a) = sent a"
  by (simp add: setState_def)

lemma detail_send [simp]: "detail (send n req a) = detail a"
  by (simp add: send_def)

lemma sent_renderFeed [simp]: "sent (renderFeed a) = sent a"
  by (simp add: renderFeed_def crash_def cleanup_def)

lemma detail_renderFeed: "detail (renderFeed a) = detail a \<or> detail (renderFeed a) = None"
  by (simp add: renderFeed_def crash_def cleanup_def)

lemma detail_socket:
  "detail (step parse (Socket e) a) = detail a \<or> detail (step parse (Socket e) a) = None"
  using detail_renderFeed [of "a\<lparr>stream := ws_handle parse e (stream a)\<rparr>"]
  by (auto split: if_splits ws_event.splits)

lemma sent_render: "\<exists>rs. sent (render old a) = sent a @ map GetRun rs"
proof (cases "sent (render old a) = sent a")
  case True
  then have "sent (render old a) = sent a @ map GetRun []" by simp
  then show ?thesis ..
next
  case False
  then obtain runId where "sent (render old a) = sent a @ map GetRun [runId]"
    by (auto simp: render_def effect_def cleanup_def fetchDetails_def send_def
        split: option.splits if_splits)
  then show ?thesis ..
qed

lemma sent_complete: "\<exists>rs. sent (complete n req r a) = sent a @ map GetRun rs"
proof (cases "sent (complete n req r a) = sent a")
  case True
  then have "sent (complete n req r a) = sent a @ map GetRun []" by simp
  then show ?thesis ..
next
  case False
  have "\<exists>runId. sent (complete n req r a) = sent a @ map GetRun [runId]"
  proof (cases req)
    case (GetRun runId)
    with False show ?thesis by (cases r) simp_all
  next
    case (PostCancel runId)
    with False show ?thesis by (cases r) (simp_all add: fetchDetails_def send_def)
  next
    case (PostInput runId v)
    with False show ?thesis by (cases r) (simp_all add: fetchDetails_def send_def)
  qed
  then show ?thesis by blast
qed

text \<open>
  A step sends nothing but \<open>GET\<close> requests, except a confirmed click on a Stop button
  that is shown and a submission from a prompt that is shown.
\<close>

lemma sent_step:
  "(\<exists>rs. sent (step parse x a) = sent a @ map GetRun rs) \<or>
   (x = ClickStop True \<and>
      (\<exists>d runId. detail a = Some d \<and> stopShown d \<and>
         sent (step parse x a) = sent a @ [PostCancel runId])) \<or>
   ((x = ClickSend \<or> x = PressEnter) \<and>
      (\<exists>d runId. detail a = Some d \<and> promptShown d \<and>
         sent (step parse x a) = sent a @ [PostInput runId (inputValue d)]))"
proof (cases x)
  case (SelectRun runId)
  show ?thesis
  proof (cases "crashed a")
    case True
    with SelectRun have "sent (step parse x a) = sent a @ map GetRun []" by simp
    then show ?thesis by blast
  next
    case False
    with SelectRun show ?thesis
      using sent_render [of "activeRunId a"
          "a\<lparr>activeRunId := Some runId, viewMode := History\<rparr>"]
      by (simp add: handleSelectRun_def)
  qed
next
  case ClickLive
  show ?thesis
  proof (cases "crashed a")
    case True
    with ClickLive have "sent (step parse x a) = sent a @ map GetRun []" by simp
    then show ?thesis by blast
  next
    case False
    with ClickLive show ?thesis
      using sent_render [of "activeRunId a" "a\<lparr>viewMode := Live, activeRunId := None\<rparr>"]
      by (simp add: showLive_def)
  qed
next
  case Tick
  show ?thesis
  proof (cases "interval a")
    case None
    with Tick have "sent (step parse x a) = sent a @ map GetRun []" by simp
    then show ?thesis by blast
  next
    case (Some runId)
    with Tick have "sent (step parse x a) = sent a @ map GetRun [runId]"
      by (simp add: fetchDetails_def send_def)
    then show ?thesis by blast
  qed
next
  case (ClickStop confirmed)
  show ?thesis
  proof (cases "sent (step parse x a) = sent a")
    case True
    then have "sent (step parse x a) = sent a @ map GetRun []" by simp
    then show ?thesis by blast
  next
    case False
    with ClickStop have "x = ClickStop True \<and>
      (\<exists>d runId. detail a = Some d \<and> stopShown d \<and>
         sent (step parse x a) = sent a @ [PostCancel runId])"
      by (auto simp: cancelRun_def send_def split: option.splits if_splits)
    then show ?thesis by blast
  qed
next
  case (TypeInput v)
  then have "sent (step parse x a) = sent a @ map GetRun []"
    by (simp split: option.split)
  then show ?thesis by blast
next
  case ClickSend
  show ?thesis
  proof (cases "sent (step parse x a) = sent a")
    case True
    then have "sent (step parse x a) = sent a @ map GetRun []" by simp
    then show ?thesis by blast
  next
    case False
    with ClickSend have "\<exists>d runId. detail a = Some d \<and> promptShown d \<and>
         sent (step parse x a) = sent a @ [PostInput runId (inputValue d)]"
      by (auto simp: submitInput_def send_def split: option.splits if_splits)
    with ClickSend show ?thesis by blast
  qed
next
  case PressEnter
  show ?thesis
  proof (cases "sent (step parse x a) = sent a")
    case True
    then have "sent (step parse x a) = sent a @ map GetRun []" by simp
    then show ?thesis by blast
  next
    case False
    with PressEnter have "\<exists>d runId. detail a = Some d \<and> promptShown d \<and>
         sent (step parse x a) = sent a @ [PostInput runId (inputValue d)]"
      by (auto simp: submitInput_def send_def split: option.splits if_splits)
    with PressEnter show ?thesis by blast
  qed
next
  case (Respond i r)
  show ?thesis
  proof (cases "i < length (inflight a)")
    case True
    with Respond show ?thesis
      using sent_complete [of "fst (inflight a ! i)" "snd (inflight a ! i)" r
          "a\<lparr>inflight := take i (inflight a) @ drop (Suc i) (inflight a)\<rparr>"]
      by simp
  next
    case False
    with Respond have "sent (step parse x a) = sent a @ map GetRun []" by simp
    then show ?thesis by blast
  qed
next
  case (Socket e)
  then have "sent (step parse x a) = sent a @ map GetRun []"
    by (simp split: ws_event.split)
  then show ?thesis by blast
qed

lemma filter_isPostCancel_GetRun [simp]: "filter isPostCancel (map GetRun rs) = []"
  by (induction rs) simp_all

lemma filter_isPostInput_GetRun [simp]: "filter isPostInput (map GetRun rs) = []"
  by (induction rs) simp_all

section \<open>What each step does to the run view\<close>

lemma detail_render:
  "detail (render old a) = Some d' \<Longrightarrow> d' = RunDetail_init \<or> detail a = Some d'"
  by (auto simp: render_def effect_def cleanup_def fetchDetails_def send_def
      split: option.splits if_splits)

lemma detail_complete:
  "detail (complete n req r a) = Some d' \<Longrightarrow>
   \<exists>d. detail a = Some d \<and>
     (d' = d \<or>
      (\<exists>runId evs st. req = GetRun runId \<and> r = Snapshot evs st \<and> d' = setSnapshot evs st d) \<or>
      d' = d\<lparr>loading := False\<rparr> \<or>
      d' = d\<lparr>inputValue := [], inputPrompt := None, loading := False\<rparr>)"
  by (cases req; cases r; cases "detail a")
    (auto simp: fetchDetails_def setState_def send_def split: if_splits)

text \<open>
  The state of the run view after a step is the initial one, after a selection, or comes
  from the state before in one of five ways.
\<close>

lemma detail_step:
  assumes "detail (step parse x a) = Some d'"
  shows "(\<exists>runId. x = SelectRun runId \<and> d' = RunDetail_init) \<or>
    (\<exists>d. detail a = Some d \<and>
      (d' = d \<or>
       (\<exists>i evs st. x = Respond i (Snapshot evs st) \<and> d' = setSnapshot evs st d) \<or>
       (\<exists>v. x = TypeInput v \<and> promptShown d \<and> d' = d\<lparr>inputValue := v\<rparr>) \<or>
       ((x = ClickSend \<or> x = PressEnter) \<and> promptShown d \<and> d' = d\<lparr>loading := True\<rparr>) \<or>
       d' = d\<lparr>loading := False\<rparr> \<or>
       d' = d\<lparr>inputValue := [], inputPrompt := None, loading := False\<rparr>))"
proof (cases x)
  case (SelectRun runId)
  with assms show ?thesis
    using detail_render [of "activeRunId a"
        "a\<lparr>activeRunId := Some runId, viewMode := History\<rparr>" d']
    by (cases "crashed a") (auto simp: handleSelectRun_def)
next
  case ClickLive
  with assms have "detail a = Some d'"
    by (cases "crashed a")
      (auto simp: showLive_def render_def renderFeed_def crash_def cleanup_def
        split: option.splits if_splits)
  then show ?thesis by simp
next
  case Tick
  with assms have "detail a = Some d'"
    by (auto simp: fetchDetails_def split: option.splits)
  then show ?thesis by simp
next
  case (ClickStop confirmed)
  with assms have "detail a = Some d'"
    by (auto simp: cancelRun_def split: option.splits if_splits)
  then show ?thesis by simp
next
  case (TypeInput v)
  with assms show ?thesis
    by (auto simp: setState_def split: option.splits if_splits)
next
  case ClickSend
  with assms show ?thesis
    by (auto simp: submitInput_def setState_def split: option.splits if_splits)
next
  case PressEnter
  with assms show ?thesis
    by (auto simp: submitInput_def setState_def split: option.splits if_splits)
next
  case (Respond i r)
  show ?thesis
  proof (cases "i < length (inflight a)")
    case True
    with Respond assms show ?thesis
      using detail_complete [of "fst (inflight a ! i)" "snd (inflight a ! i)" r
          "a\<lparr>inflight := take i (inflight a) @ drop (Suc i) (inflight a)\<rparr>" d']
      by auto
  next
    case False
    with Respond assms show ?thesis by simp
  qed
next
  case (Socket e)
  with assms have "detail a = Some d'"
    using detail_socket [of parse e a] by simp
  then show ?thesis by simp
qed



section \<open>Properties of the controls\<close>

text \<open>
  The test for the Stop button compares spellings. The button is rendered before the
  first snapshot, for the spellings of a finished run that \<open>RunList\<close> tests for, for the
  kind of a cancellation, and for the terminal values of \<open>RunState\<close>.
\<close>

lemma stopShown_other_spellings:
  "stopShown RunDetail_init"
  "stopShown (d\<lparr>status := ''run_completed''\<rparr>)"
  "stopShown (d\<lparr>status := ''run_failed''\<rparr>)"
  "stopShown (d\<lparr>status := ''run_cancelled''\<rparr>)"
  "stopShown (d\<lparr>status := RunState_literal Completed\<rparr>)"
  "stopShown (d\<lparr>status := RunState_literal Failed\<rparr>)"
  "stopShown (d\<lparr>status := RunState_literal Cancelled\<rparr>)"
  by (simp_all add: stopShown_def RunDetail_init_def)

text \<open>
  While the status on display is spelled \<open>RunCompleted\<close>, \<open>RunFailed\<close> or \<open>Cancelled\<close>,
  the Stop button is not rendered, a click on it has nothing to act on, and no step of
  the page sends a cancel request.
\<close>

lemma no_cancel_for_tested_spellings:
  "detail a = Some d \<Longrightarrow>
   status d = ''RunCompleted'' \<or> status d = ''RunFailed'' \<or> status d = ''Cancelled'' \<Longrightarrow>
   \<not> stopShown d \<and>
   step parse (ClickStop confirmed) a = a \<and>
   filter isPostCancel (sent (step parse x a)) = filter isPostCancel (sent a)"
proof -
  assume mounted: "detail a = Some d"
    and st: "status d = ''RunCompleted'' \<or> status d = ''RunFailed'' \<or> status d = ''Cancelled''"
  have hidden: "\<not> stopShown d"
    using st by (auto simp: stopShown_def)
  have noop: "step parse (ClickStop confirmed) a = a"
    using mounted hidden by (simp split: option.split)
  have "filter isPostCancel (sent (step parse x a)) = filter isPostCancel (sent a)"
    using sent_step [of parse x a] mounted hidden by auto
  with hidden noop show ?thesis by simp
qed

text \<open>
  C6. Run A is finished and the backend reports it as \<open>run_completed\<close>, the spelling that
  \<open>RunList\<close> tests for. \<open>RunDetail\<close> tests for other spellings: the Stop button is
  rendered under the status of the finished run, and the confirmed click posts the cancel.
\<close>

theorem cancel_sent_for_completed_run:
  "map_option status (detail (run demo_parse (butlast stop_completed_run) App_init))
     = Some ''run_completed'' \<and>
   map_option stopShown (detail (run demo_parse (butlast stop_completed_run) App_init))
     = Some True \<and>
   sent (run demo_parse stop_completed_run App_init) = [GetRun ''A'', PostCancel ''A'']"
  by (simp add: stop_completed_run_def app_defs)

section \<open>The input prompt\<close>

lemma prompt_complete:
  "detail (complete n req r a) = Some d' \<Longrightarrow>
   inputPrompt d' = None \<or> map_option inputPrompt (detail a) = Some (inputPrompt d')"
proof (cases req)
  case (GetRun runId)
  assume "detail (complete n req r a) = Some d'"
  with GetRun show ?thesis
    by (cases r; cases "detail a") (auto simp: setState_def setSnapshot_def split: if_splits)
next
  case (PostCancel runId)
  assume "detail (complete n req r a) = Some d'"
  with PostCancel show ?thesis
    by (cases r; cases "detail a") (auto simp: fetchDetails_def split: if_splits)
next
  case (PostInput runId v)
  assume "detail (complete n req r a) = Some d'"
  with PostInput show ?thesis
    by (cases r; cases "detail a")
      (auto simp: fetchDetails_def setState_def send_def split: if_splits)
qed

lemma prompt_render:
  "detail (render old a) = Some d' \<Longrightarrow>
   inputPrompt d' = None \<or> map_option inputPrompt (detail a) = Some (inputPrompt d')"
  by (auto simp: render_def effect_def cleanup_def fetchDetails_def send_def RunDetail_init_def
      split: option.splits if_splits)

lemma prompt_step:
  "detail (step parse x a) = Some d' \<Longrightarrow>
   inputPrompt d' = None \<or> map_option inputPrompt (detail a) = Some (inputPrompt d')"
proof (cases x)
  case (SelectRun runId)
  assume "detail (step parse x a) = Some d'"
  with SelectRun show ?thesis
    using prompt_render [of "activeRunId a"
        "a\<lparr>activeRunId := Some runId, viewMode := History\<rparr>" d']
    by (cases "crashed a") (simp_all add: handleSelectRun_def)
next
  case ClickLive
  assume "detail (step parse x a) = Some d'"
  with ClickLive show ?thesis
    using prompt_render [of "activeRunId a" "a\<lparr>viewMode := Live, activeRunId := None\<rparr>" d']
      detail_renderFeed [of "showLive a"]
    by (cases "crashed a") (auto simp: showLive_def)
next
  case Tick
  assume "detail (step parse x a) = Some d'"
  with Tick show ?thesis
    by (auto simp: fetchDetails_def split: option.splits)
next
  case (ClickStop confirmed)
  assume "detail (step parse x a) = Some d'"
  with ClickStop show ?thesis
    by (auto simp: cancelRun_def split: option.splits if_splits)
next
  case (TypeInput v)
  assume "detail (step parse x a) = Some d'"
  with TypeInput show ?thesis
    by (auto simp: setState_def split: option.splits if_splits)
next
  case ClickSend
  assume "detail (step parse x a) = Some d'"
  with ClickSend show ?thesis
    by (auto simp: submitInput_def setState_def split: option.splits if_splits)
next
  case PressEnter
  assume "detail (step parse x a) = Some d'"
  with PressEnter show ?thesis
    by (auto simp: submitInput_def setState_def split: option.splits if_splits)
next
  case (Respond i r)
  assume "detail (step parse x a) = Some d'"
  with Respond show ?thesis
    using prompt_complete [of "fst (inflight a ! i)" "snd (inflight a ! i)" r
        "a\<lparr>inflight := take i (inflight a) @ drop (Suc i) (inflight a)\<rparr>" d']
    by (auto split: if_splits)
next
  case (Socket e)
  assume "detail (step parse x a) = Some d'"
  with Socket have "detail a = Some d'"
    using detail_socket [of parse e a] by simp
  then show ?thesis by simp
qed

lemma prompt_inv_step:
  assumes "\<And>d. detail a = Some d \<Longrightarrow> inputPrompt d = None"
    and "filter isPostInput (sent a) = []"
  shows "(\<forall>d. detail (step parse x a) = Some d \<longrightarrow> inputPrompt d = None) \<and>
         filter isPostInput (sent (step parse x a)) = []"
proof
  show "\<forall>d. detail (step parse x a) = Some d \<longrightarrow> inputPrompt d = None"
    using prompt_step [of parse x a] assms(1) by fastforce
  have "\<And>d. detail a = Some d \<Longrightarrow> \<not> promptShown d"
    using assms(1) by (simp add: promptShown_def)
  then show "filter isPostInput (sent (step parse x a)) = []"
    using sent_step [of parse x a] assms(2) by auto
qed

lemma prompt_inv_run:
  "(\<And>d. detail a = Some d \<Longrightarrow> inputPrompt d = None) \<Longrightarrow>
   filter isPostInput (sent a) = [] \<Longrightarrow>
   (\<forall>d. detail (run parse xs a) = Some d \<longrightarrow> inputPrompt d = None) \<and>
   filter isPostInput (sent (run parse xs a)) = []"
proof (induction xs arbitrary: a)
  case Nil
  then show ?case by simp
next
  case (Cons x xs)
  have "(\<forall>d. detail (step parse x a) = Some d \<longrightarrow> inputPrompt d = None) \<and>
        filter isPostInput (sent (step parse x a)) = []"
    by (rule prompt_inv_step) (use Cons.prems in simp_all)
  then show ?case
    using Cons.IH [of "step parse x a"] by simp
qed

text \<open>
  C10. \<open>inputPrompt\<close> starts as \<open>null\<close>; every step leaves it as it is or sets it to
  \<open>null\<close>; so on every page reachable from the start it is \<open>null\<close>, the prompt block is
  not rendered, and no input has been posted.
\<close>

theorem inputPrompt_never_set:
  "inputPrompt RunDetail_init = None \<and>
   (\<forall>d'. detail (step parse x a) = Some d' \<longrightarrow>
      inputPrompt d' = None \<or> map_option inputPrompt (detail a) = Some (inputPrompt d')) \<and>
   (\<forall>d. detail (run parse xs App_init) = Some d \<longrightarrow> inputPrompt d = None \<and> \<not> promptShown d) \<and>
   filter isPostInput (sent (run parse xs App_init)) = []"
proof -
  have "(\<forall>d. detail (run parse xs App_init) = Some d \<longrightarrow> inputPrompt d = None) \<and>
        filter isPostInput (sent (run parse xs App_init)) = []"
    by (rule prompt_inv_run) (simp_all add: App_init_def)
  then show ?thesis
    using prompt_step [of parse x a]
    by (auto simp: RunDetail_init_def promptShown_def)
qed

theorem inputPrompt_never_set_witness:
  "detail (run demo_parse [SelectRun ''A'', TypeInput ''yes'', ClickSend, PressEnter] App_init)
     = Some RunDetail_init \<and>
   inputPrompt RunDetail_init = None \<and> \<not> promptShown RunDetail_init \<and>
   sent (run demo_parse [SelectRun ''A'', TypeInput ''yes'', ClickSend, PressEnter] App_init)
     = [GetRun ''A'']"
proof -
  have h: "detail (run demo_parse [SelectRun ''A'', TypeInput ''yes'', ClickSend, PressEnter]
      App_init) = Some RunDetail_init"
    by (simp add: app_defs)
  have s: "sent (run demo_parse [SelectRun ''A'', TypeInput ''yes'', ClickSend, PressEnter]
      App_init) = [GetRun ''A'']"
    by (simp add: app_defs)
  show ?thesis
    using inputPrompt_never_set [of demo_parse ClickSend App_init
        "[SelectRun ''A'', TypeInput ''yes'', ClickSend, PressEnter]"] h s
    by simp
qed

section \<open>Properties of the history poller\<close>






section \<open>Submitting input\<close>

lemma input_inv_step:
  assumes "\<And>d. detail a = Some d \<Longrightarrow> inputPrompt d = None \<and> inputValue d = []"
    and "detail (step parse x a) = Some d'"
  shows "inputPrompt d' = None \<and> inputValue d' = []"
  using detail_step [OF assms(2)] assms(1)
  by (auto simp: RunDetail_init_def setSnapshot_def promptShown_def)

lemma input_inv_run:
  "(\<And>d. detail a = Some d \<Longrightarrow> inputPrompt d = None \<and> inputValue d = []) \<Longrightarrow>
   detail (run parse xs a) = Some d' \<Longrightarrow> inputPrompt d' = None \<and> inputValue d' = []"
proof (induction xs arbitrary: a)
  case Nil
  then show ?case by simp
next
  case (Cons x xs)
  have "\<And>d. detail (step parse x a) = Some d \<Longrightarrow> inputPrompt d = None \<and> inputValue d = []"
    using input_inv_step [of a parse x] Cons.prems(1) by blast
  then show ?case
    using Cons.IH [of "step parse x a"] Cons.prems(2) by simp
qed

text \<open>
  C4. On every page that can be reached from the start, whatever the status on display,
  the typed value is empty and the prompt block is not rendered: \<open>submitInput\<close> returns at
  its guard and leaves the page as it is, and neither Send nor Enter does anything. No
  request goes out.
\<close>

theorem submitInput_rejected_on_every_page:
  "detail (run parse xs App_init) = Some d \<Longrightarrow>
   inputValue d = [] \<and> \<not> promptShown d \<and>
   submitInput n runId (run parse xs App_init) = run parse xs App_init \<and>
   step parse ClickSend (run parse xs App_init) = run parse xs App_init \<and>
   step parse PressEnter (run parse xs App_init) = run parse xs App_init"
proof -
  assume mounted: "detail (run parse xs App_init) = Some d"
  have "inputPrompt d = None \<and> inputValue d = []"
    using input_inv_run [of App_init parse xs d] mounted by (simp add: App_init_def)
  then show ?thesis
    using mounted by (simp add: submitInput_def promptShown_def split: option.split)
qed

theorem submitInput_rejected_on_every_page_witness:
  "map_option status (detail (run demo_parse
      [SelectRun ''A'', Respond 0 (Snapshot None ''RunCompleted''), TypeInput ''yes'']
      App_init)) = Some ''RunCompleted'' \<and>
   sent (submitInput 1 ''A'' (run demo_parse
      [SelectRun ''A'', Respond 0 (Snapshot None ''RunCompleted''), TypeInput ''yes'']
      App_init)) = [GetRun ''A''] \<and>
   sent (run demo_parse
      [SelectRun ''A'', Respond 0 (Snapshot None ''RunCompleted''), TypeInput ''yes'',
       ClickSend, PressEnter] App_init) = [GetRun ''A'']"
proof -
  have h: "detail (run demo_parse
      [SelectRun ''A'', Respond 0 (Snapshot None ''RunCompleted''), TypeInput ''yes'']
      App_init) = Some (RunDetail_init\<lparr>events := [], status := ''RunCompleted''\<rparr>)"
    by (simp add: app_defs)
  have s: "sent (run demo_parse
      [SelectRun ''A'', Respond 0 (Snapshot None ''RunCompleted''), TypeInput ''yes'']
      App_init) = [GetRun ''A'']"
    by (simp add: app_defs)
  have r: "run demo_parse
      [SelectRun ''A'', Respond 0 (Snapshot None ''RunCompleted''), TypeInput ''yes'',
       ClickSend, PressEnter] App_init
     = step demo_parse PressEnter (step demo_parse ClickSend (run demo_parse
        [SelectRun ''A'', Respond 0 (Snapshot None ''RunCompleted''), TypeInput ''yes'']
        App_init))"
    by simp
  show ?thesis
    using submitInput_rejected_on_every_page [OF h, of 1 "''A''"] h s
    unfolding r by simp
qed

text \<open>
  \<open>submitInput\<close> does not look at the response of its POST: an answer with an error
  status is handled as any answer that does not throw.
\<close>

lemma submitInput_done_ignores_status:
  "submitInput_done n runId Status_not_ok a = submitInput_done n runId (Snapshot evs st) a"
  by simp

section \<open>The displayed status\<close>

lemma status_unknown_step:
  assumes "\<not> isSnapshot x"
    and "\<And>d. detail a = Some d \<Longrightarrow> status d = ''unknown''"
    and "detail (step parse x a) = Some d'"
  shows "status d' = ''unknown''"
  using detail_step [OF assms(3)] assms(1,2)
  by (auto simp: RunDetail_init_def)

text \<open>
  A run view that is mounted shows the status \<open>unknown\<close>, and keeps showing it until an
  answer with a body has been handled.
\<close>

lemma status_unknown_until_snapshot:
  "(\<And>d. detail a = Some d \<Longrightarrow> status d = ''unknown'') \<Longrightarrow>
   filter isSnapshot xs = [] \<Longrightarrow>
   detail (run parse xs a) = Some d' \<Longrightarrow> status d' = ''unknown''"
proof (induction xs arbitrary: a)
  case Nil
  then show ?case by simp
next
  case (Cons x xs)
  from Cons.prems(2) have x: "\<not> isSnapshot x" and xs: "filter isSnapshot xs = []"
    by (simp_all split: if_splits)
  have "\<And>d. detail (step parse x a) = Some d \<Longrightarrow> status d = ''unknown''"
    using status_unknown_step [OF x, of a parse] Cons.prems(1) by blast
  then show ?case
    using Cons.IH [of "step parse x a"] xs Cons.prems(3) by simp
qed

text \<open>
  C9. The operator opens run A, its status arrives, and the operator opens run B. The
  request for B is still unanswered, nothing has been observed for B, and the status on
  display is the one fetched for A, not \<open>unknown\<close>: the state cell is initialised when the
  view is mounted and is not reset when \<open>runId\<close> changes. And while the status is
  \<open>unknown\<close> the view behaves as for a run in progress: the Stop button is rendered and the
  confirmed click posts the cancel.
\<close>

theorem status_of_previous_run_shown:
  "activeRunId (run demo_parse switch_after_fetch App_init) = Some ''B'' \<and>
   sent (run demo_parse switch_after_fetch App_init) = [GetRun ''A'', GetRun ''B''] \<and>
   inflight (run demo_parse switch_after_fetch App_init) = [(1, GetRun ''B'')] \<and>
   map_option status (detail (run demo_parse switch_after_fetch App_init)) = Some ''RunCompleted'' \<and>
   map_option status (detail (run demo_parse switch_after_fetch App_init)) \<noteq> Some ''unknown'' \<and>
   map_option status (detail (run demo_parse [SelectRun ''A''] App_init)) = Some ''unknown'' \<and>
   map_option stopShown (detail (run demo_parse [SelectRun ''A''] App_init)) = Some True \<and>
   sent (run demo_parse [SelectRun ''A'', ClickStop True] App_init)
     = [GetRun ''A'', PostCancel ''A'']"
  by (simp add: switch_after_fetch_def app_defs)

section \<open>Switching the selected run\<close>




end
